theory Spec2Isabelle
  imports Complex_Main "HOL-Library.Multiset" "HOL-Library.Sublist"
begin

section \<open>Strings: \<open>toLowerCase\<close> and \<open>includes\<close>\<close>

text \<open>
  Titles are modelled as lists of 8-bit characters. \<open>toLowerCase\<close> folds the ASCII
  capitals \<open>A\<close>..\<open>Z\<close> and leaves every other character alone. (JavaScript also folds
  non-ASCII capitals; none of them folds to a sequence that contains one of the
  keywords below, so keyword matching is not affected.)
\<close>

definition toLowerChar :: "char \<Rightarrow> char" where
  "toLowerChar c =
     (let n = (of_char c :: nat) in if 65 \<le> n \<and> n \<le> 90 then char_of (n + 32) else c)"

definition toLowerCase :: "string \<Rightarrow> string" where
  "toLowerCase s = map toLowerChar s"

text \<open>
  \<open>s.includes(p)\<close>, named \<open>includes_str\<close> here since \<open>includes\<close> is reserved: does
  \<open>p\<close> occur in \<open>s\<close> as a contiguous run.
\<close>

fun startsWith :: "string \<Rightarrow> string \<Rightarrow> bool" where
  "startsWith s [] = True"
| "startsWith [] (p # ps) = False"
| "startsWith (c # cs) (p # ps) = (c = p \<and> startsWith cs ps)"

fun includes_str :: "string \<Rightarrow> string \<Rightarrow> bool" where
  "includes_str [] p = (p = [])"
| "includes_str (c # cs) p = (startsWith (c # cs) p \<or> includes_str cs p)"

section \<open>Classifier (final-ticket-manager.js)\<close>

text \<open>\<open>categorizeEvent(title)\<close>, lines 772-780.\<close>

definition categorizeEvent :: "string \<Rightarrow> string" where
  "categorizeEvent t =
     (let titleLower = toLowerCase t in
      if includes_str titleLower ''open mic'' then ''Open Mic''
      else if includes_str titleLower ''jam'' then ''Jam Session''
      else if includes_str titleLower ''lessons'' \<or> includes_str titleLower ''songwriting''
        then ''Workshop''
      else if includes_str titleLower ''fundraiser'' then ''Fundraiser''
      else ''Concert'')"

text \<open>\<open>isRSVPEvent(title)\<close>, lines 783-788.\<close>

definition isRSVPEvent :: "string \<Rightarrow> bool" where
  "isRSVPEvent t =
     (let titleLower = toLowerCase t in
      includes_str titleLower ''open mic'' \<or> includes_str titleLower ''jam''
      \<or> includes_str titleLower ''lessons'')"

text \<open>
  The sales status, lines 721-729 of \<open>getUpcomingEventsWithTickets\<close>. The day count
  is \<open>None\<close> when it is \<open>NaN\<close> (an invalid date), and \<open>NaN <= 7\<close> is false.
\<close>

definition salesStatusOf :: "int \<Rightarrow> int option \<Rightarrow> string" where
  "salesStatusOf sold days =
     (if (case days of None \<Rightarrow> False | Some d \<Rightarrow> d \<le> 7) \<and> sold = 0
        then ''urgent''
      else if sold \<ge> 25 then ''high''
      else if sold \<ge> 10 then ''medium''
      else ''low'')"

subsection \<open>The classifier as the specification words it\<close>

datatype EventType = OpenMic | JamSession | Workshop | Fundraiser | Concert

fun typeName :: "EventType \<Rightarrow> string" where
  "typeName OpenMic = ''Open Mic''"
| "typeName JamSession = ''Jam Session''"
| "typeName Workshop = ''Workshop''"
| "typeName Fundraiser = ''Fundraiser''"
| "typeName Concert = ''Concert''"

definition isSubstring :: "string \<Rightarrow> string \<Rightarrow> bool" where
  "isSubstring kw s = (\<exists>ps ss. s = ps @ kw @ ss)"

definition keywordTable :: "(string list \<times> EventType) list" where
  "keywordTable =
     [([''open mic''], OpenMic),
      ([''jam''], JamSession),
      ([''lessons'', ''songwriting''], Workshop),
      ([''fundraiser''], Fundraiser)]"

definition classifyType :: "string \<Rightarrow> EventType" where
  "classifyType t =
     (case find (\<lambda>(kws, ty). \<exists>kw \<in> set kws. isSubstring kw (toLowerCase t)) keywordTable of
        None \<Rightarrow> Concert
      | Some (kws, ty) \<Rightarrow> ty)"

datatype Status = Urgent | High | Medium | Low

fun statusName :: "Status \<Rightarrow> string" where
  "statusName Urgent = ''urgent''"
| "statusName High = ''high''"
| "statusName Medium = ''medium''"
| "statusName Low = ''low''"

section \<open>Events and dates\<close>

text \<open>
  The value found at \<open>event.scheduling?.config?.startDate\<close>: \<open>undefined\<close> when the field
  or one of the objects on the way to it is missing, \<open>null\<close>, or a string. A string is
  represented by what \<open>Date.parse\<close> makes of it: its time value in milliseconds, or
  \<open>None\<close> when it does not parse.
\<close>

datatype startDateField = JsUndefined | JsNull | JsString "int option"

text \<open>
  The time value of \<open>new Date(x)\<close>; \<open>None\<close> is \<open>NaN\<close>, the time value of an Invalid
  Date. \<open>new Date(undefined)\<close> is invalid, \<open>new Date(null)\<close> is the epoch.
\<close>

fun newDate :: "startDateField \<Rightarrow> int option" where
  "newDate JsUndefined = None"
| "newDate JsNull = Some 0"
| "newDate (JsString parsed) = parsed"

text \<open>An event as the upstream service returns it.\<close>

record event =
  eventId :: string
  title :: string
  startDate :: startDateField
  locationName :: "string option"

text \<open>\<open>new Date(event.scheduling?.config?.startDate)\<close>, the \<open>eventDate\<close> of the source.\<close>

definition eventDate :: "event \<Rightarrow> int option" where
  "eventDate e = newDate (startDate e)"

text \<open>\<open>eventDate > now\<close> and \<open>eventDate <= now\<close>: both are false on \<open>NaN\<close>.\<close>

definition dateAfter :: "int option \<Rightarrow> int \<Rightarrow> bool" where
  "dateAfter d now = (case d of None \<Rightarrow> False | Some t \<Rightarrow> t > now)"

definition dateNotAfter :: "int option \<Rightarrow> int \<Rightarrow> bool" where
  "dateNotAfter d now = (case d of None \<Rightarrow> False | Some t \<Rightarrow> t \<le> now)"

text \<open>
  The key of the two sorts. Every sort in the program runs on a list that was filtered
  by one of the comparisons above, so it only meets valid dates; the value at \<open>None\<close>
  is never used. \<open>Array.prototype.sort\<close> is stable, and so is \<open>sort_key\<close>.
\<close>

definition timeValue :: "event \<Rightarrow> int" where
  "timeValue e = (case eventDate e of None \<Rightarrow> 0 | Some t \<Rightarrow> t)"

section \<open>Event fetcher (venue-manager.js)\<close>

text \<open>
  \<open>getUpcomingEvents\<close> (lines 79-109) and \<open>getPastEvents\<close> (lines 112-142), as functions
  of the clock reading \<open>now\<close> and of the result of \<open>getAllEvents\<close>: \<open>Inl\<close> carries the
  error message of a failed fetch, which both pass on unchanged.
\<close>

definition getUpcomingEvents :: "int \<Rightarrow> string + event list \<Rightarrow> string + event list" where
  "getUpcomingEvents now allEventsResult =
     (case allEventsResult of
        Inl err \<Rightarrow> Inl err
      | Inr events \<Rightarrow>
          Inr (sort_key timeValue (filter (\<lambda>e. dateAfter (eventDate e) now) events)))"

definition getPastEvents :: "int \<Rightarrow> string + event list \<Rightarrow> string + event list" where
  "getPastEvents now allEventsResult =
     (case allEventsResult of
        Inl err \<Rightarrow> Inl err
      | Inr events \<Rightarrow>
          Inr (sort_key (\<lambda>e. - timeValue e) (filter (\<lambda>e. dateNotAfter (eventDate e) now) events)))"

section \<open>API client (final-ticket-manager.js)\<close>

text \<open>
  What one GET of an event's tickets can produce: an error that axios throws, with
  \<open>error.response?.status\<close> and \<open>error.message\<close>, or a response whose \<open>data\<close> has a
  \<open>tickets\<close> array and a \<open>total\<close>, each possibly absent. (A response without \<open>data\<close>
  makes the \<open>try\<close> block throw a TypeError, which the same \<open>catch\<close> handles: it is an
  error with no status.) Of a ticket only the truth value of \<open>ticket.free\<close> is read.
\<close>

record ticket =
  free :: bool

datatype httpError = HttpError (errStatus: "nat option") (errMessage: string)

record ticketsData =
  dataTickets :: "ticket list option"
  dataTotal :: "int option"

type_synonym ticketsResponse = "httpError + ticketsData"

record ticketsResult =
  success :: bool
  error :: "string option"
  tickets :: "ticket list"
  total :: int

text \<open>
  The two objects that \<open>getEventTickets\<close> returns, lines 651-655 and 663.
  \<open>x || d\<close> takes \<open>d\<close> for an absent \<open>x\<close> (and for a total of 0, which is 0 anyway).
\<close>

definition ticketsOf :: "ticketsData \<Rightarrow> ticket list" where
  "ticketsOf d = (case dataTickets d of None \<Rightarrow> [] | Some ts \<Rightarrow> ts)"

definition totalOf :: "ticketsData \<Rightarrow> int" where
  "totalOf d = (case dataTotal d of None \<Rightarrow> 0 | Some n \<Rightarrow> n)"

definition successResult :: "ticketsData \<Rightarrow> ticketsResult" where
  "successResult d = \<lparr>success = True, error = None, tickets = ticketsOf d, total = totalOf d\<rparr>"

definition failureResult :: "httpError \<Rightarrow> ticketsResult" where
  "failureResult err = \<lparr>success = False, error = Some (errMessage err), tickets = [], total = 0\<rparr>"

text \<open>
  \<open>getEventTickets(eventId, retries = 3)\<close>, lines 643-666. \<open>request n\<close> is what the
  \<open>n\<close>-th GET for this event produces. The loop is run from \<open>attempt\<close>; beside the
  returned value the model gives the delays, in milliseconds, that were waited, in
  order. A loop that ends without returning yields \<open>undefined\<close>, here \<open>None\<close>.
\<close>

function getEventTickets_from ::
  "(nat \<Rightarrow> ticketsResponse) \<Rightarrow> nat \<Rightarrow> nat \<Rightarrow> ticketsResult option \<times> nat list" where
  "getEventTickets_from request retries attempt =
     (if attempt \<le> retries then
        (case request attempt of
           Inr d \<Rightarrow> (Some (successResult d), [])
         | Inl err \<Rightarrow>
             if errStatus err = Some 429 \<and> attempt < retries then
               (case getEventTickets_from request retries (attempt + 1) of
                  (r, delays) \<Rightarrow> (r, attempt * 2000 # delays))
             else (Some (failureResult err), []))
      else (None, []))"
  by pat_completeness auto
termination
  by (relation "measure (\<lambda>(request, retries, attempt). Suc retries - attempt)") auto

definition getEventTickets ::
  "(nat \<Rightarrow> ticketsResponse) \<Rightarrow> nat \<Rightarrow> ticketsResult option \<times> nat list" where
  "getEventTickets request retries = getEventTickets_from request retries 1"

section \<open>Enrichment stage (final-ticket-manager.js)\<close>

text \<open>
  \<open>Math.ceil((eventDate - new Date()) / (1000 * 60 * 60 * 24))\<close>, in exact arithmetic;
  \<open>None\<close> is \<open>NaN\<close>.
\<close>

definition daysUntil :: "int option \<Rightarrow> int \<Rightarrow> int option" where
  "daysUntil d now =
     (case d of None \<Rightarrow> None | Some t \<Rightarrow> Some (- ((- (t - now)) div (1000 * 60 * 60 * 24))))"

text \<open>
  \<open>event.location?.name || 'The Listening Booth'\<close>: the default stands in for a missing
  name and for an empty one.
\<close>

definition venueOf :: "string option \<Rightarrow> string" where
  "venueOf n =
     (case n of
        None \<Rightarrow> ''The Listening Booth''
      | Some v \<Rightarrow> if v = [] then ''The Listening Booth'' else v)"

text \<open>\<open>daysFromNow <= 7\<close>, false on \<open>NaN\<close>.\<close>

definition withinWeek :: "int option \<Rightarrow> bool" where
  "withinWeek d = (case d of None \<Rightarrow> False | Some n \<Rightarrow> n \<le> 7)"

record ticketEvent = event +
  ticketsSold :: int
  paidTickets :: nat
  freeTickets :: nat
  daysFromNow :: "int option"
  salesStatus :: string
  eventType :: string
  venue :: string
  isPaid :: bool
  isFree :: bool
  isRSVPOnly :: bool

text \<open>
  The body of the loop of \<open>getUpcomingEventsWithTickets\<close>, lines 710-752, for one event,
  the result of its ticket lookup and the clock reading at that moment.
\<close>

definition enrichEvent :: "event \<Rightarrow> ticketsResult \<Rightarrow> int \<Rightarrow> ticketEvent" where
  "enrichEvent e ticketsResult now =
     (let sold = total ticketsResult;
          days = daysUntil (eventDate e) now;
          paid = filter (\<lambda>t. \<not> free t) (tickets ticketsResult);
          freeOnes = filter (\<lambda>t. free t) (tickets ticketsResult);
          isPaidEvent = (length paid > 0);
          isFreeEvent = (int (length freeOnes) = sold \<and> sold > 0);
          isRSVP = (sold = 0 \<and> isRSVPEvent (title e))
      in \<lparr>eventId = eventId e, title = title e, startDate = startDate e,
          locationName = locationName e,
          ticketsSold = sold,
          paidTickets = length paid,
          freeTickets = length freeOnes,
          daysFromNow = days,
          salesStatus = salesStatusOf sold days,
          eventType = categorizeEvent (title e),
          venue = venueOf (locationName e),
          isPaid = isPaidEvent,
          isFree = isFreeEvent,
          isRSVPOnly = isRSVP\<rparr>)"

text \<open>
  The loop, lines 708-757. \<open>api i ident\<close> is the sequence of responses to the lookups of
  the \<open>i\<close>-th event of the list, whose id is \<open>ident\<close>; \<open>clock i\<close> is the clock reading
  when that event is processed. \<open>getEventTickets\<close> is called with its default of 3
  retries. Reading \<open>.total\<close> of an \<open>undefined\<close> result would throw into the enclosing
  \<open>catch\<close>, which returns the failure; \<open>Inl\<close> carries its message.
\<close>

type_synonym ticketsApi = "nat \<Rightarrow> string \<Rightarrow> nat \<Rightarrow> ticketsResponse"

fun enrichLoop :: "ticketsApi \<Rightarrow> (nat \<Rightarrow> int) \<Rightarrow> nat \<Rightarrow> event list \<Rightarrow> string + ticketEvent list" where
  "enrichLoop api clock i [] = Inr []"
| "enrichLoop api clock i (e # es) =
     (case fst (getEventTickets (api i (eventId e)) 3) of
        None \<Rightarrow> Inl ''TypeError''
      | Some r \<Rightarrow>
          (case enrichLoop api clock (Suc i) es of
             Inl err \<Rightarrow> Inl err
           | Inr rest \<Rightarrow> Inr (enrichEvent e r (clock i) # rest)))"

text \<open>\<open>xs.slice(0, limit)\<close>; a negative \<open>limit\<close> counts from the end.\<close>

definition slice0 :: "int \<Rightarrow> 'a list \<Rightarrow> 'a list" where
  "slice0 limit xs =
     (if limit < 0 then take (nat (int (length xs) + limit)) xs else take (nat limit) xs)"

text \<open>
  \<open>getUpcomingEventsWithTickets(limit)\<close>, lines 668-770, from the filter on.
  \<open>fetched\<close> is the outcome of the paging loop before it: the events it collected, or
  the message of the error it threw.
\<close>

definition upcomingSlice :: "int \<Rightarrow> int \<Rightarrow> event list \<Rightarrow> event list" where
  "upcomingSlice now limit allEvents =
     slice0 limit (sort_key timeValue (filter (\<lambda>e. dateAfter (eventDate e) now) allEvents))"

definition getUpcomingEventsWithTickets ::
  "string + event list \<Rightarrow> int \<Rightarrow> ticketsApi \<Rightarrow> (nat \<Rightarrow> int) \<Rightarrow> int \<Rightarrow> string + ticketEvent list" where
  "getUpcomingEventsWithTickets fetched now api clock limit =
     (case fetched of
        Inl err \<Rightarrow> Inl err
      | Inr allEvents \<Rightarrow> enrichLoop api clock 0 (upcomingSlice now limit allEvents))"

section \<open>Report builder (final-ticket-manager.js)\<close>

text \<open>\<open>Math.round\<close> rounds to the nearest integer, a half upwards.\<close>

definition mathRound :: "real \<Rightarrow> int" where
  "mathRound x = \<lfloor>x + 1 / 2\<rfloor>"

record salesBreakdown =
  high :: nat
  medium :: nat
  low :: nat
  urgent :: nat

text \<open>
  The summary block of the report. An entry of \<open>topSellingEvents\<close> is the triple of
  title, tickets and type. (The report also carries the constant venue block, a
  field-by-field copy of the events and the timestamp; the counting maps by event
  type and by venue are not modelled.)
\<close>

record summary =
  totalUpcomingEvents :: nat
  totalTicketsSold :: int
  totalPaidTickets :: nat
  totalFreeTickets :: nat
  averageTicketsPerEvent :: real
  ticketedEventsCount :: nat
  freeEventsCount :: nat
  salesBreakdown :: salesBreakdown
  topSellingEvents :: "(string \<times> int \<times> string) list"
  urgentEvents :: "ticketEvent list"
  thisWeekEvents :: "ticketEvent list"

text \<open>The filter of lines 803-805.\<close>

definition isTicketed :: "ticketEvent \<Rightarrow> bool" where
  "isTicketed e = (isPaid e \<or> (ticketsSold e > 0 \<and> \<not> isRSVPOnly e))"

text \<open>
  \<open>generateTicketReport\<close>, lines 790-882, on the events of a successful fetch. Sums and
  the quotient are exact here; the source computes them in doubles, which agree as long
  as the totals stay below 2 to the power 53.
\<close>

definition buildSummary :: "ticketEvent list \<Rightarrow> summary" where
  "buildSummary events =
     (let totalSold = foldl (\<lambda>sum e. sum + ticketsSold e) 0 events;
          totalPaid = foldl (\<lambda>sum e. sum + paidTickets e) 0 events;
          totalFree = foldl (\<lambda>sum e. sum + freeTickets e) 0 events;
          ticketedEvents = filter isTicketed events;
          average =
            (if length ticketedEvents > 0
             then real_of_int (mathRound (real_of_int totalSold / real (length ticketedEvents) * 10)) / 10
             else 0)
      in \<lparr>totalUpcomingEvents = length events,
          totalTicketsSold = totalSold,
          totalPaidTickets = totalPaid,
          totalFreeTickets = totalFree,
          averageTicketsPerEvent = average,
          ticketedEventsCount = length ticketedEvents,
          freeEventsCount = length (filter (\<lambda>e. isFree e \<or> isRSVPOnly e) events),
          salesBreakdown =
            \<lparr>high = length (filter (\<lambda>e. salesStatus e = ''high'') events),
             medium = length (filter (\<lambda>e. salesStatus e = ''medium'') events),
             low = length (filter (\<lambda>e. salesStatus e = ''low'') events),
             urgent = length (filter (\<lambda>e. salesStatus e = ''urgent'') events)\<rparr>,
          topSellingEvents =
            map (\<lambda>e. (title e, ticketsSold e,
                       if isPaid e then ''paid'' else if isFree e then ''free'' else ''unknown''))
              (take 5 (sort_key (\<lambda>e. - ticketsSold e) (filter (\<lambda>e. ticketsSold e > 0) events))),
          urgentEvents = filter (\<lambda>e. salesStatus e = ''urgent'') events,
          thisWeekEvents = filter (\<lambda>e. withinWeek (daysFromNow e)) events\<rparr>)"

definition generateTicketReport :: "string + ticketEvent list \<Rightarrow> string + summary" where
  "generateTicketReport data =
     (case data of Inl err \<Rightarrow> Inl err | Inr events \<Rightarrow> Inr (buildSummary events))"

section \<open>Enrichment stage (simplified-venue-manager.js)\<close>

text \<open>
  The enriched event of \<open>getUpcomingEvents(limit)\<close> in simplified-venue-manager.js. Its
  fields \<open>ticketsSold\<close>, \<open>daysFromNow\<close>, \<open>eventType\<close> and \<open>venue\<close> carry the prefix \<open>sv\<close>
  here, the plain names being those of the record above.
\<close>

record venueEvent = event +
  rsvpCount :: int
  svTicketsSold :: int
  totalAttendance :: int
  svDaysFromNow :: "int option"
  popularityStatus :: string
  statusText :: string
  isRecurring :: bool
  svEventType :: string
  svVenue :: string

text \<open>
  The callback of lines 65-139. The RSVP lookup gives \<open>data.total\<close>, the bookings lookup
  \<open>data.bookings?.length\<close>, each possibly absent, or the lookup throws; each sits in a
  \<open>try\<close> of its own whose \<open>catch\<close> is empty.
\<close>

definition enrichVenueEvent ::
  "event \<Rightarrow> httpError + int option \<Rightarrow> httpError + nat option \<Rightarrow> int \<Rightarrow> venueEvent" where
  "enrichVenueEvent e rsvpResponse bookingResponse now =
     (let rsvps = (case rsvpResponse of Inl err \<Rightarrow> 0 | Inr None \<Rightarrow> 0 | Inr (Some n) \<Rightarrow> n);
          sold = (case bookingResponse of Inl err \<Rightarrow> 0 | Inr None \<Rightarrow> 0 | Inr (Some n) \<Rightarrow> int n);
          days = daysUntil (eventDate e) now;
          attendance = rsvps + sold;
          byCount =
            (if rsvps > 0 \<or> sold > 0 then
               (if attendance > 20 then (''high'', ''High Interest'')
                else if attendance > 10 then (''medium'', ''Good Interest'')
                else (''low'', ''Some Interest''))
             else (''info'', ''Event Scheduled''));
          recurring =
            (includes_str (toLowerCase (title e)) ''open mic''
             \<or> includes_str (toLowerCase (title e)) ''jam night''
             \<or> includes_str (toLowerCase (title e)) ''voice lessons'');
          overridden = (if recurring then (''recurring'', ''Regular Event'') else byCount)
      in \<lparr>eventId = eventId e, title = title e, startDate = startDate e,
          locationName = locationName e,
          rsvpCount = rsvps,
          svTicketsSold = sold,
          totalAttendance = rsvps + sold,
          svDaysFromNow = days,
          popularityStatus = fst overridden,
          statusText =
            (if withinWeek days then snd overridden @ '' - Coming Soon!'' else snd overridden),
          isRecurring = recurring,
          svEventType = categorizeEvent (title e),
          svVenue = venueOf (locationName e)\<rparr>)"

text \<open>
  \<open>getUpcomingEvents(limit)\<close> of simplified-venue-manager.js, lines 26-153, from the
  filter on: \<open>Promise.all\<close> over the callback, one result per event, in the order of
  the events.
\<close>

definition getUpcomingEventsSimplified ::
  "string + event list \<Rightarrow> int \<Rightarrow> (nat \<Rightarrow> string \<Rightarrow> httpError + int option)
     \<Rightarrow> (nat \<Rightarrow> string \<Rightarrow> httpError + nat option) \<Rightarrow> (nat \<Rightarrow> int) \<Rightarrow> int
     \<Rightarrow> string + venueEvent list" where
  "getUpcomingEventsSimplified fetched now rsvpApi bookingApi clock limit =
     (case fetched of
        Inl err \<Rightarrow> Inl err
      | Inr allEvents \<Rightarrow>
          Inr (map (\<lambda>(i, e). enrichVenueEvent e (rsvpApi i (eventId e)) (bookingApi i (eventId e)) (clock i))
                 (enumerate 0 (upcomingSlice now limit allEvents))))"

section \<open>Vocabulary of the statements and sample inputs\<close>

text \<open>A response that the retry loop answers by waiting: an error with status 429.\<close>

definition rateLimited :: "ticketsResponse \<Rightarrow> bool" where
  "rateLimited r = (case r of Inl err \<Rightarrow> errStatus err = Some 429 | Inr d \<Rightarrow> False)"

text \<open>
  The end-to-end scenario of the specification: "Open Mic" with 0 tickets 3 days out,
  "Jazz Night" with 12 tickets 10 days out, "Fundraiser Gala" with 30 tickets 2 days
  out. The run starts at time 0, the lookups happen half a second later and then
  one second apart. The ticket records of the two selling events are parameters.
\<close>

definition scenarioEvents :: "event list" where
  "scenarioEvents =
     [\<lparr>eventId = ''open-mic'', title = ''Open Mic'',
         startDate = JsString (Some (3 * 86400000)), locationName = None\<rparr>,
      \<lparr>eventId = ''jazz-night'', title = ''Jazz Night'',
         startDate = JsString (Some (10 * 86400000)), locationName = None\<rparr>,
      \<lparr>eventId = ''gala'', title = ''Fundraiser Gala'',
         startDate = JsString (Some (2 * 86400000)), locationName = None\<rparr>]"

definition scenarioApi :: "ticket list \<Rightarrow> ticket list \<Rightarrow> ticketsApi" where
  "scenarioApi jazz gala i ident n =
     (if ident = ''open-mic'' then Inr \<lparr>dataTickets = Some [], dataTotal = Some 0\<rparr>
      else if ident = ''jazz-night'' then Inr \<lparr>dataTickets = Some jazz, dataTotal = Some 12\<rparr>
      else Inr \<lparr>dataTickets = Some gala, dataTotal = Some 30\<rparr>)"

definition scenarioClock :: "nat \<Rightarrow> int" where
  "scenarioClock i = 500 + 1000 * int i"

definition scenarioReport :: "ticket list \<Rightarrow> ticket list \<Rightarrow> string + summary" where
  "scenarioReport jazz gala =
     generateTicketReport
       (getUpcomingEventsWithTickets (Inr scenarioEvents) 0 (scenarioApi jazz gala) scenarioClock 20)"

text \<open>
  Two upcoming events, a concert with 10 paid tickets and a picnic with 4 free
  tickets, and a service that reports them so.
\<close>

definition freeEventInput :: "event list" where
  "freeEventInput =
     [\<lparr>eventId = ''concert'', title = ''Jazz Night'',
         startDate = JsString (Some (10 * 86400000)), locationName = None\<rparr>,
      \<lparr>eventId = ''picnic'', title = ''Community Picnic'',
         startDate = JsString (Some (12 * 86400000)), locationName = None\<rparr>]"

definition freeEventApi :: ticketsApi where
  "freeEventApi i ident n =
     (if ident = ''concert''
      then Inr \<lparr>dataTickets = Some (replicate 10 \<lparr>free = False\<rparr>), dataTotal = Some 10\<rparr>
      else Inr \<lparr>dataTickets = Some (replicate 4 \<lparr>free = True\<rparr>), dataTotal = Some 4\<rparr>)"

text \<open>
  A service whose answer carries one ticket record and no total, and one whose total
  covers the records it returns.
\<close>

definition noTotalApi :: ticketsApi where
  "noTotalApi i ident n = Inr \<lparr>dataTickets = Some [\<lparr>free = False\<rparr>], dataTotal = None\<rparr>"

definition twoTicketsApi :: ticketsApi where
  "twoTicketsApi i ident n =
     Inr \<lparr>dataTickets = Some [\<lparr>free = True\<rparr>, \<lparr>free = False\<rparr>], dataTotal = Some 2\<rparr>"

text \<open>A service that fails every lookup of the event \<open>gala\<close> with status 500.\<close>

definition galaDownApi :: ticketsApi where
  "galaDownApi i ident n =
     (if ident = ''gala'' then Inl (HttpError (Some 500) ''Request failed with status code 500'')
      else Inr \<lparr>dataTickets = Some [\<lparr>free = False\<rparr>], dataTotal = Some 1\<rparr>)"

text \<open>
  Four fetched events starting at 300, 50, 200 and 100, in that order, and three
  events with no usable start date: the field missing, a string that does not parse,
  and \<open>null\<close>.
\<close>

definition fetchedSample :: "event list" where
  "fetchedSample =
     [\<lparr>eventId = ''a'', title = ''Jazz Night'', startDate = JsString (Some 300), locationName = None\<rparr>,
      \<lparr>eventId = ''b'', title = ''Open Mic'', startDate = JsString (Some 50), locationName = None\<rparr>,
      \<lparr>eventId = ''c'', title = ''Jam Night'', startDate = JsString (Some 200), locationName = None\<rparr>,
      \<lparr>eventId = ''d'', title = ''Voice Lessons'', startDate = JsString (Some 100), locationName = None\<rparr>]"

definition undatedEvent :: event where
  "undatedEvent =
     \<lparr>eventId = ''tbd'', title = ''Surprise Show'', startDate = JsUndefined, locationName = None\<rparr>"

definition garbledDateEvent :: event where
  "garbledDateEvent =
     \<lparr>eventId = ''garbled'', title = ''Mystery Guest'', startDate = JsString None, locationName = None\<rparr>"

definition nullDateEvent :: event where
  "nullDateEvent =
     \<lparr>eventId = ''null'', title = ''Date To Be Announced'', startDate = JsNull, locationName = None\<rparr>"

section \<open>Properties of the classifier\<close>

lemma startsWith_iff: "startsWith s p \<longleftrightarrow> (\<exists>ss. s = p @ ss)"
  by (induction s p rule: startsWith.induct) auto

lemma includes_iff: "includes_str s p \<longleftrightarrow> isSubstring p s"
proof (induction s)
  case Nil
  show ?case by (auto simp: isSubstring_def)
next
  case (Cons c cs)
  have "isSubstring p (c # cs) \<longleftrightarrow> (\<exists>ss. c # cs = p @ ss) \<or> isSubstring p cs"
  proof
    assume "isSubstring p (c # cs)"
    then obtain ps ss where e: "c # cs = ps @ p @ ss" by (auto simp: isSubstring_def)
    show "(\<exists>ss. c # cs = p @ ss) \<or> isSubstring p cs"
    proof (cases ps)
      case Nil
      with e show ?thesis by auto
    next
      case (Cons a as)
      with e have "cs = as @ p @ ss" by simp
      then show ?thesis by (auto simp: isSubstring_def)
    qed
  next
    assume "(\<exists>ss. c # cs = p @ ss) \<or> isSubstring p cs"
    then show "isSubstring p (c # cs)"
    proof
      assume "\<exists>ss. c # cs = p @ ss"
      then obtain ss where "c # cs = [] @ p @ ss" by auto
      then show ?thesis unfolding isSubstring_def by blast
    next
      assume "isSubstring p cs"
      then obtain ps ss where "cs = ps @ p @ ss" by (auto simp: isSubstring_def)
      then have "c # cs = (c # ps) @ p @ ss" by simp
      then show ?thesis unfolding isSubstring_def by blast
    qed
  qed
  with Cons show ?case by (simp add: startsWith_iff del: startsWith.simps)
qed

text \<open>
  C4. For every title, \<open>categorizeEvent\<close> returns the name of the first matching entry of
  the priority table (open mic, jam, lessons or songwriting, fundraiser) on the
  lower-cased title, and Concert when none matches; "Open Mic Night" is an Open Mic,
  "Spring Songwriting Workshop" a Workshop and "Random Band Concert" a Concert.
\<close>

theorem categorizeEvent_first_match:
  "categorizeEvent t = typeName (classifyType t)
   \<and> categorizeEvent ''Open Mic Night'' = typeName OpenMic
   \<and> categorizeEvent ''Spring Songwriting Workshop'' = typeName Workshop
   \<and> categorizeEvent ''Random Band Concert'' = typeName Concert"
proof -
  have general: "categorizeEvent u = typeName (classifyType u)" for u
    by (simp add: categorizeEvent_def classifyType_def keywordTable_def includes_iff Let_def)
  have e1: "categorizeEvent ''Open Mic Night'' = typeName OpenMic"
    by code_simp
  have e2: "categorizeEvent ''Spring Songwriting Workshop'' = typeName Workshop"
    by code_simp
  have e3: "categorizeEvent ''Random Band Concert'' = typeName Concert"
    by code_simp
  from general e1 e2 e3 show ?thesis by blast
qed

theorem categorizeEvent_first_match_witness:
  "categorizeEvent ''Friday JAM Fundraiser'' = typeName (classifyType ''Friday JAM Fundraiser'')
   \<and> categorizeEvent ''Friday JAM Fundraiser'' = ''Jam Session''"
proof -
  have "categorizeEvent ''Friday JAM Fundraiser'' = ''Jam Session''"
    by code_simp
  with categorizeEvent_first_match [of "''Friday JAM Fundraiser''"] show ?thesis by simp
qed

text \<open>
  C3. For every non-negative ticket count and every integer day count the status is
  urgent exactly when the event is at most 7 days out with no ticket sold; otherwise
  high from 25 tickets, medium from 10 to 24, low below; (0, 3) is urgent, (0, 30) low
  and (30, 30) high.
\<close>

theorem salesStatusOf_thresholds:
  assumes "0 \<le> n"
  shows "(salesStatusOf n (Some d) = statusName Urgent \<longleftrightarrow> d \<le> 7 \<and> n = 0)
    \<and> (\<not> (d \<le> 7 \<and> n = 0) \<longrightarrow>
         salesStatusOf n (Some d) =
           (if n \<ge> 25 then statusName High
            else if 10 \<le> n \<and> n < 25 then statusName Medium
            else statusName Low))
    \<and> salesStatusOf 0 (Some 3) = statusName Urgent
    \<and> salesStatusOf 0 (Some 30) = statusName Low
    \<and> salesStatusOf 30 (Some 30) = statusName High"
  by (simp add: salesStatusOf_def)

theorem salesStatusOf_thresholds_witness:
  "salesStatusOf 12 (Some 10) = statusName Medium
   \<and> salesStatusOf 0 (Some 7) = statusName Urgent
   \<and> salesStatusOf 0 (Some 8) = statusName Low"
proof -
  have h12: "(0::int) \<le> 12" and h0: "(0::int) \<le> 0" by simp_all
  from salesStatusOf_thresholds [OF h12, of 10] salesStatusOf_thresholds [OF h0, of 7]
    salesStatusOf_thresholds [OF h0, of 8]
  show ?thesis by simp
qed

section \<open>Properties of the event fetcher\<close>

lemma sorted_descending: "sorted (map (\<lambda>e. - (f e :: int)) ys) \<Longrightarrow> sorted (rev (map f ys))"
  by (simp add: sorted_wrt_rev sorted_wrt_map)

lemma valid_date_split: "d \<noteq> None \<Longrightarrow> dateNotAfter d now = (\<not> dateAfter d now)"
  by (auto simp: dateNotAfter_def dateAfter_def)

lemma dates_of_valid:
  assumes "\<forall>e \<in> set xs. eventDate e \<noteq> None"
  shows "map eventDate xs = map Some (map timeValue xs)"
  using assms by (induction xs) (auto simp: timeValue_def)

text \<open>
  C5. When every fetched event has a valid start date, the upcoming filter (start after
  now) and the past filter (start at or before now) split the list: as multisets the
  two results add up to the fetched list and every fetched event is in exactly one of
  them; the start dates of the upcoming events are all after now and ascending, those
  of the past events all at or before now and descending.
\<close>

theorem upcoming_past_partition:
  assumes valid: "\<forall>e \<in> set events. eventDate e \<noteq> None"
  shows "\<exists>up past upTimes pastTimes.
      getUpcomingEvents now (Inr events) = Inr up
    \<and> getPastEvents now (Inr events) = Inr past
    \<and> mset up + mset past = mset events
    \<and> (\<forall>e \<in> set events. (e \<in> set up) \<noteq> (e \<in> set past))
    \<and> map eventDate up = map Some upTimes
    \<and> (\<forall>t \<in> set upTimes. t > now) \<and> sorted upTimes
    \<and> map eventDate past = map Some pastTimes
    \<and> (\<forall>t \<in> set pastTimes. t \<le> now) \<and> sorted (rev pastTimes)"
proof -
  let ?up = "sort_key timeValue (filter (\<lambda>e. dateAfter (eventDate e) now) events)"
  let ?past = "sort_key (\<lambda>e. - timeValue e) (filter (\<lambda>e. dateNotAfter (eventDate e) now) events)"
  have same: "filter (\<lambda>e. dateNotAfter (eventDate e) now) events
            = filter (\<lambda>e. \<not> dateAfter (eventDate e) now) events"
    using valid by (intro filter_cong) (auto simp: valid_date_split)
  have m: "mset ?up + mset ?past = mset events"
    by (simp add: same)
  have x: "\<forall>e \<in> set events. (e \<in> set ?up) \<noteq> (e \<in> set ?past)"
    by (auto simp: same)
  have du: "map eventDate ?up = map Some (map timeValue ?up)"
    using valid by (intro dates_of_valid) auto
  have dp: "map eventDate ?past = map Some (map timeValue ?past)"
    using valid by (intro dates_of_valid) auto
  have u: "\<forall>t \<in> set (map timeValue ?up). t > now"
    by (auto simp: dateAfter_def timeValue_def split: option.splits)
  have p: "\<forall>t \<in> set (map timeValue ?past). t \<le> now"
    by (auto simp: dateNotAfter_def timeValue_def split: option.splits)
  have s1: "sorted (map timeValue ?up)" by simp
  have s2: "sorted (rev (map timeValue ?past))" by (rule sorted_descending) simp
  have r1: "getUpcomingEvents now (Inr events) = Inr ?up"
    by (simp add: getUpcomingEvents_def)
  have r2: "getPastEvents now (Inr events) = Inr ?past"
    by (simp add: getPastEvents_def)
  from r1 r2 m x du u s1 dp p s2 show ?thesis by blast
qed

theorem upcoming_past_partition_witness:
  "getUpcomingEvents 150 (Inr fetchedSample) = Inr [fetchedSample ! 2, fetchedSample ! 0]
   \<and> getPastEvents 150 (Inr fetchedSample) = Inr [fetchedSample ! 3, fetchedSample ! 1]
   \<and> map eventDate [fetchedSample ! 2, fetchedSample ! 0] = [Some 200, Some 300]
   \<and> map eventDate [fetchedSample ! 3, fetchedSample ! 1] = [Some 100, Some 50]
   \<and> mset [fetchedSample ! 2, fetchedSample ! 0] + mset [fetchedSample ! 3, fetchedSample ! 1]
       = mset fetchedSample"
proof -
  have h: "\<forall>e \<in> set fetchedSample. eventDate e \<noteq> None"
    by (simp add: fetchedSample_def eventDate_def)
  have u: "getUpcomingEvents 150 (Inr fetchedSample) = Inr [fetchedSample ! 2, fetchedSample ! 0]"
    by (simp add: getUpcomingEvents_def fetchedSample_def dateAfter_def timeValue_def eventDate_def)
  have p: "getPastEvents 150 (Inr fetchedSample) = Inr [fetchedSample ! 3, fetchedSample ! 1]"
    by (simp add: getPastEvents_def fetchedSample_def dateNotAfter_def timeValue_def eventDate_def)
  have d: "map eventDate [fetchedSample ! 2, fetchedSample ! 0] = [Some 200, Some 300]"
    "map eventDate [fetchedSample ! 3, fetchedSample ! 1] = [Some 100, Some 50]"
    by (simp_all add: fetchedSample_def eventDate_def)
  from upcoming_past_partition [OF h, of 150] obtain up past where
    "getUpcomingEvents 150 (Inr fetchedSample) = Inr up"
    "getPastEvents 150 (Inr fetchedSample) = Inr past"
    "mset up + mset past = mset fetchedSample"
    by blast
  with u p d show ?thesis by simp
qed

text \<open>
  C6, as amended. With an event in the list whose start date is missing (\<open>undefined\<close>) or
  a string that does not parse, both functions still return their success result,
  and that event is in neither.
\<close>

theorem invalid_date_excluded:
  assumes "e \<in> set events"
    and "startDate e = JsUndefined \<or> startDate e = JsString None"
  shows "\<exists>up past.
      getUpcomingEvents now (Inr events) = Inr up
    \<and> getPastEvents now (Inr events) = Inr past
    \<and> e \<notin> set up \<and> e \<notin> set past"
  using assms
  by (auto simp: getUpcomingEvents_def getPastEvents_def dateAfter_def dateNotAfter_def
      eventDate_def)

theorem invalid_date_excluded_witness:
  "getUpcomingEvents 150 (Inr (undatedEvent # garbledDateEvent # fetchedSample))
     = Inr [fetchedSample ! 2, fetchedSample ! 0]
   \<and> getPastEvents 150 (Inr (undatedEvent # garbledDateEvent # fetchedSample))
     = Inr [fetchedSample ! 3, fetchedSample ! 1]
   \<and> undatedEvent \<notin> set [fetchedSample ! 2, fetchedSample ! 0]
   \<and> undatedEvent \<notin> set [fetchedSample ! 3, fetchedSample ! 1]"
proof -
  let ?events = "undatedEvent # garbledDateEvent # fetchedSample"
  have a: "undatedEvent \<in> set ?events" by simp
  have b: "startDate undatedEvent = JsUndefined \<or> startDate undatedEvent = JsString None"
    by (simp add: undatedEvent_def)
  have u: "getUpcomingEvents 150 (Inr ?events) = Inr [fetchedSample ! 2, fetchedSample ! 0]"
    by (simp add: getUpcomingEvents_def fetchedSample_def undatedEvent_def garbledDateEvent_def
        dateAfter_def timeValue_def eventDate_def)
  have p: "getPastEvents 150 (Inr ?events) = Inr [fetchedSample ! 3, fetchedSample ! 1]"
    by (simp add: getPastEvents_def fetchedSample_def undatedEvent_def garbledDateEvent_def
        dateNotAfter_def timeValue_def eventDate_def)
  from invalid_date_excluded [OF a b, of 150] obtain up past where
    "getUpcomingEvents 150 (Inr ?events) = Inr up" "getPastEvents 150 (Inr ?events) = Inr past"
    "undatedEvent \<notin> set up" "undatedEvent \<notin> set past"
    by blast
  with u p show ?thesis by simp
qed

text \<open>
  C6, as stated, fails for a start date that is absent as \<open>null\<close>: \<open>new Date(null)\<close> is the
  epoch, a valid date, and the event is listed among the past events.
\<close>

theorem null_date_counterexample:
  "startDate nullDateEvent = JsNull
   \<and> getUpcomingEvents 1762128000000 (Inr [nullDateEvent]) = Inr []
   \<and> getPastEvents 1762128000000 (Inr [nullDateEvent]) = Inr [nullDateEvent]"
  by (simp add: getUpcomingEvents_def getPastEvents_def nullDateEvent_def dateAfter_def
      dateNotAfter_def eventDate_def)

section \<open>Properties of the API client\<close>

lemma from_3: "getEventTickets_from request 3 3 =
   (Some (case request 3 of Inl err \<Rightarrow> failureResult err | Inr d \<Rightarrow> successResult d), [])"
  by (simp split: sum.splits)

lemma from_2: "getEventTickets_from request 3 2 =
   (if rateLimited (request 2) then (fst (getEventTickets_from request 3 3), [4000])
    else (Some (case request 2 of Inl err \<Rightarrow> failureResult err | Inr d \<Rightarrow> successResult d), []))"
  by (subst getEventTickets_from.simps) (simp add: rateLimited_def from_3 split: sum.splits)

lemma from_1: "getEventTickets_from request 3 1 =
   (if rateLimited (request 1)
    then (fst (getEventTickets_from request 3 2), 2000 # snd (getEventTickets_from request 3 2))
    else (Some (case request 1 of Inl err \<Rightarrow> failureResult err | Inr d \<Rightarrow> successResult d), []))"
  by (subst getEventTickets_from.simps)
     (simp add: rateLimited_def split: sum.splits prod.splits
        del: getEventTickets_from.simps One_nat_def)

lemma getEventTickets_3:
  "getEventTickets request 3 =
     (let k = (if \<not> rateLimited (request 1) then 1 else if \<not> rateLimited (request 2) then 2 else 3)
      in (Some (case request k of Inl err \<Rightarrow> failureResult err | Inr d \<Rightarrow> successResult d),
          map (\<lambda>a. a * 2000) [1..<k]))"
  unfolding getEventTickets_def from_1 from_2 from_3
  by (simp add: upt_conv_Cons Let_def del: getEventTickets_from.simps)

lemma getEventTickets_returns: "\<exists>r. fst (getEventTickets request 3) = Some r"
  by (simp add: getEventTickets_3 Let_def)

lemma getEventTickets_failure_zero:
  assumes "fst (getEventTickets request 3) = Some r" and "\<not> success r"
  shows "tickets r = [] \<and> total r = 0"
  using assms
  by (auto simp: getEventTickets_3 Let_def failureResult_def successResult_def
      split: if_splits sum.splits)

text \<open>
  C7. With the default of 3 retries \<open>getEventTickets\<close> makes \<open>k\<close> attempts, 1 to 3 of them:
  every attempt before the \<open>k\<close>-th was answered 429 and waited for attempt times 2000
  milliseconds, the \<open>k\<close>-th is the third or was not answered 429, and what is returned
  is a result, never an exception or \<open>undefined\<close>: for an error at the \<open>k\<close>-th attempt
  the failure object with the error's message, no tickets and total 0.
\<close>

theorem getEventTickets_retry:
  "\<exists>k r. 1 \<le> k \<and> k \<le> 3
     \<and> getEventTickets request 3 = (Some r, map (\<lambda>attempt. attempt * 2000) [1..<k])
     \<and> (\<forall>a. 1 \<le> a \<and> a < k \<longrightarrow> rateLimited (request a))
     \<and> (k < 3 \<longrightarrow> \<not> rateLimited (request k))
     \<and> (case request k of
          Inl err \<Rightarrow> r = \<lparr>success = False, error = Some (errMessage err), tickets = [], total = 0\<rparr>
        | Inr d \<Rightarrow> success r \<and> tickets r = ticketsOf d \<and> total r = totalOf d)"
proof -
  define k :: nat where
    "k = (if \<not> rateLimited (request 1) then 1 else if \<not> rateLimited (request 2) then 2 else 3)"
  define r where
    "r = (case request k of Inl err \<Rightarrow> failureResult err | Inr d \<Rightarrow> successResult d)"
  have run: "getEventTickets request 3 = (Some r, map (\<lambda>attempt. attempt * 2000) [1..<k])"
    by (simp add: getEventTickets_3 k_def r_def Let_def)
  have bounds: "1 \<le> k \<and> k \<le> 3" by (simp add: k_def)
  have before: "\<forall>a. 1 \<le> a \<and> a < k \<longrightarrow> rateLimited (request a)"
  proof (intro allI impI)
    fix a assume a: "1 \<le> a \<and> a < k"
    then have "a = 1 \<or> a = 2" using bounds by arith
    then show "rateLimited (request a)"
    proof
      assume "a = 1"
      with a show ?thesis by (simp add: k_def split: if_splits)
    next
      assume "a = 2"
      with a show ?thesis by (simp add: k_def split: if_splits)
    qed
  qed
  have stop: "k < 3 \<longrightarrow> \<not> rateLimited (request k)"
    by (auto simp: k_def split: if_splits)
  have res: "case request k of
          Inl err \<Rightarrow> r = \<lparr>success = False, error = Some (errMessage err), tickets = [], total = 0\<rparr>
        | Inr d \<Rightarrow> success r \<and> tickets r = ticketsOf d \<and> total r = totalOf d"
    by (simp add: r_def failureResult_def successResult_def split: sum.splits)
  from bounds run before stop res show ?thesis by blast
qed

theorem getEventTickets_retry_witness:
  "getEventTickets (\<lambda>n. Inl (HttpError (Some 429) ''Too Many Requests'')) 3
     = (Some \<lparr>success = False, error = Some ''Too Many Requests'', tickets = [], total = 0\<rparr>,
        [2000, 4000])"
proof -
  let ?request = "\<lambda>n::nat. (Inl (HttpError (Some 429) ''Too Many Requests'') :: ticketsResponse)"
  from getEventTickets_retry [of ?request] obtain k r where
    k: "1 \<le> k" "k \<le> 3" and
    run: "getEventTickets ?request 3 = (Some r, map (\<lambda>attempt. attempt * 2000) [1..<k])" and
    stop: "k < 3 \<longrightarrow> \<not> rateLimited (?request k)" and
    res: "r = \<lparr>success = False, error = Some ''Too Many Requests'', tickets = [], total = 0\<rparr>"
    by auto
  from stop have "\<not> k < 3" by (simp add: rateLimited_def)
  with k have "k = 3" by simp
  with run res show ?thesis by (simp add: upt_conv_Cons)
qed

section \<open>Properties of the enrichment stage\<close>

text \<open>The day count is the ceiling that the source computes.\<close>

lemma daysUntil_ceiling:
  "daysUntil (Some t) now = Some \<lceil>real_of_int (t - now) / (1000 * 60 * 60 * 24)\<rceil>"
proof -
  have "\<lceil>real_of_int (t - now) / real_of_int 86400000\<rceil> = - ((- (t - now)) div 86400000)"
    by (rule ceiling_divide_eq_div)
  then show ?thesis by (simp add: daysUntil_def)
qed

lemma enrichEvent_counts:
  "ticketsSold (enrichEvent e r t) = total r"
  "paidTickets (enrichEvent e r t) + freeTickets (enrichEvent e r t) = length (tickets r)"
  "title (enrichEvent e r t) = title e"
  "eventId (enrichEvent e r t) = eventId e"
  "salesStatus (enrichEvent e r t) = salesStatusOf (total r) (daysUntil (eventDate e) t)"
  by (simp_all add: enrichEvent_def Let_def sum_length_filter_compl add.commute)

lemma enrichLoop_entries:
  "\<exists>out. enrichLoop api clock k events = Inr out \<and> length out = length events
     \<and> (\<forall>i < length events. \<exists>r.
          fst (getEventTickets (api (k + i) (eventId (events ! i))) 3) = Some r
          \<and> out ! i = enrichEvent (events ! i) r (clock (k + i)))"
proof (induction events arbitrary: k)
  case Nil
  show ?case by simp
next
  case (Cons e es)
  obtain r where r: "fst (getEventTickets (api k (eventId e)) 3) = Some r"
    using getEventTickets_returns by blast
  from Cons.IH [of "Suc k"] obtain rest where
    rest: "enrichLoop api clock (Suc k) es = Inr rest" "length rest = length es" and
    each: "\<forall>i < length es. \<exists>r.
          fst (getEventTickets (api (Suc k + i) (eventId (es ! i))) 3) = Some r
          \<and> rest ! i = enrichEvent (es ! i) r (clock (Suc k + i))"
    by blast
  have run: "enrichLoop api clock k (e # es) = Inr (enrichEvent e r (clock k) # rest)"
    using r rest by simp
  have "\<exists>r'. fst (getEventTickets (api (k + i) (eventId ((e # es) ! i))) 3) = Some r'
          \<and> (enrichEvent e r (clock k) # rest) ! i = enrichEvent ((e # es) ! i) r' (clock (k + i))"
    if "i < length (e # es)" for i
  proof (cases i)
    case 0
    with r show ?thesis by simp
  next
    case (Suc j)
    with that have "j < length es" by simp
    with each Suc show ?thesis by simp
  qed
  with run rest show ?case by simp
qed

text \<open>
  C8. Whatever the lookups answer, both enrichment stages return their success result
  with one entry per upcoming event, in order, and each entry is computed from its own
  event and its own lookups only. In final-ticket-manager.js a failed ticket lookup
  leaves the event with 0 tickets sold, 0 paid and 0 free; in
  simplified-venue-manager.js a failed RSVP lookup leaves an RSVP count of 0 and a
  failed bookings lookup a ticket count of 0.
\<close>

theorem enrichment_survives_failures:
  "(\<exists>out. getUpcomingEventsWithTickets (Inr allEvents) now api clock limit = Inr out
      \<and> length out = length (upcomingSlice now limit allEvents)
      \<and> (\<forall>i < length out. \<exists>r.
            fst (getEventTickets (api i (eventId (upcomingSlice now limit allEvents ! i))) 3) = Some r
          \<and> out ! i = enrichEvent (upcomingSlice now limit allEvents ! i) r (clock i)
          \<and> (\<not> success r \<longrightarrow>
                ticketsSold (out ! i) = 0 \<and> paidTickets (out ! i) = 0 \<and> freeTickets (out ! i) = 0)))
   \<and> (\<exists>out. getUpcomingEventsSimplified (Inr allEvents) now rsvpApi bookingApi clock limit = Inr out
      \<and> length out = length (upcomingSlice now limit allEvents)
      \<and> (\<forall>i < length out.
            out ! i = enrichVenueEvent (upcomingSlice now limit allEvents ! i)
                        (rsvpApi i (eventId (upcomingSlice now limit allEvents ! i)))
                        (bookingApi i (eventId (upcomingSlice now limit allEvents ! i))) (clock i)
          \<and> (isl (rsvpApi i (eventId (upcomingSlice now limit allEvents ! i))) \<longrightarrow>
                rsvpCount (out ! i) = 0)
          \<and> (isl (bookingApi i (eventId (upcomingSlice now limit allEvents ! i))) \<longrightarrow>
                svTicketsSold (out ! i) = 0)))"
proof
  let ?ups = "upcomingSlice now limit allEvents"
  from enrichLoop_entries [of api clock 0 ?ups] obtain out where
    run: "enrichLoop api clock 0 ?ups = Inr out" and len: "length out = length ?ups" and
    each: "\<forall>i < length ?ups. \<exists>r.
          fst (getEventTickets (api (0 + i) (eventId (?ups ! i))) 3) = Some r
          \<and> out ! i = enrichEvent (?ups ! i) r (clock (0 + i))"
    by blast
  have "\<exists>r. fst (getEventTickets (api i (eventId (?ups ! i))) 3) = Some r
          \<and> out ! i = enrichEvent (?ups ! i) r (clock i)
          \<and> (\<not> success r \<longrightarrow>
                ticketsSold (out ! i) = 0 \<and> paidTickets (out ! i) = 0 \<and> freeTickets (out ! i) = 0)"
    if "i < length out" for i
  proof -
    from that len each obtain r where
      r: "fst (getEventTickets (api i (eventId (?ups ! i))) 3) = Some r" and
      o: "out ! i = enrichEvent (?ups ! i) r (clock i)"
      by auto
    have "tickets r = [] \<and> total r = 0" if "\<not> success r"
      using getEventTickets_failure_zero [OF r that] .
    then have "\<not> success r \<longrightarrow>
        ticketsSold (out ! i) = 0 \<and> paidTickets (out ! i) = 0 \<and> freeTickets (out ! i) = 0"
      by (simp add: o enrichEvent_def Let_def)
    with r o show ?thesis by blast
  qed
  with run len
  show "\<exists>out. getUpcomingEventsWithTickets (Inr allEvents) now api clock limit = Inr out
      \<and> length out = length ?ups
      \<and> (\<forall>i < length out. \<exists>r.
            fst (getEventTickets (api i (eventId (?ups ! i))) 3) = Some r
          \<and> out ! i = enrichEvent (?ups ! i) r (clock i)
          \<and> (\<not> success r \<longrightarrow>
                ticketsSold (out ! i) = 0 \<and> paidTickets (out ! i) = 0 \<and> freeTickets (out ! i) = 0))"
    by (simp add: getUpcomingEventsWithTickets_def)
next
  let ?ups = "upcomingSlice now limit allEvents"
  show "\<exists>out. getUpcomingEventsSimplified (Inr allEvents) now rsvpApi bookingApi clock limit = Inr out
      \<and> length out = length ?ups
      \<and> (\<forall>i < length out.
            out ! i = enrichVenueEvent (?ups ! i) (rsvpApi i (eventId (?ups ! i)))
                        (bookingApi i (eventId (?ups ! i))) (clock i)
          \<and> (isl (rsvpApi i (eventId (?ups ! i))) \<longrightarrow> rsvpCount (out ! i) = 0)
          \<and> (isl (bookingApi i (eventId (?ups ! i))) \<longrightarrow> svTicketsSold (out ! i) = 0))"
    by (auto simp: getUpcomingEventsSimplified_def nth_enumerate_eq enrichVenueEvent_def Let_def isl_def)
qed

lemma scenario_slice:
  "upcomingSlice 0 20 scenarioEvents = [scenarioEvents ! 2, scenarioEvents ! 0, scenarioEvents ! 1]"
  by (simp add: upcomingSlice_def slice0_def scenarioEvents_def dateAfter_def timeValue_def
      eventDate_def)

theorem enrichment_survives_failures_witness:
  "\<exists>out. getUpcomingEventsWithTickets (Inr scenarioEvents) 0 galaDownApi scenarioClock 20 = Inr out
     \<and> length out = 3 \<and> title (out ! 0) = ''Fundraiser Gala'' \<and> ticketsSold (out ! 0) = 0
     \<and> paidTickets (out ! 0) = 0 \<and> freeTickets (out ! 0) = 0"
proof -
  from enrichment_survives_failures [of scenarioEvents 0 galaDownApi scenarioClock 20]
  obtain out where
    run: "getUpcomingEventsWithTickets (Inr scenarioEvents) 0 galaDownApi scenarioClock 20 = Inr out" and
    len: "length out = length (upcomingSlice 0 20 scenarioEvents)" and
    each: "\<forall>i < length out. \<exists>r.
            fst (getEventTickets (galaDownApi i (eventId (upcomingSlice 0 20 scenarioEvents ! i))) 3) = Some r
          \<and> out ! i = enrichEvent (upcomingSlice 0 20 scenarioEvents ! i) r (scenarioClock i)
          \<and> (\<not> success r \<longrightarrow>
                ticketsSold (out ! i) = 0 \<and> paidTickets (out ! i) = 0 \<and> freeTickets (out ! i) = 0)"
    by blast
  from len have l3: "length out = 3" by (simp add: scenario_slice)
  then have "0 < length out" by simp
  with each obtain r where
    r: "fst (getEventTickets (galaDownApi 0 (eventId (upcomingSlice 0 20 scenarioEvents ! 0))) 3) = Some r" and
    o: "out ! 0 = enrichEvent (upcomingSlice 0 20 scenarioEvents ! 0) r (scenarioClock 0)" and
    z: "\<not> success r \<longrightarrow>
          ticketsSold (out ! 0) = 0 \<and> paidTickets (out ! 0) = 0 \<and> freeTickets (out ! 0) = 0"
    by blast
  from r have "\<not> success r"
    unfolding scenario_slice
    by (auto simp: scenarioEvents_def galaDownApi_def getEventTickets_3
        rateLimited_def failureResult_def)
  with z have zero: "ticketsSold (out ! 0) = 0 \<and> paidTickets (out ! 0) = 0 \<and> freeTickets (out ! 0) = 0"
    by simp
  from o have "title (out ! 0) = ''Fundraiser Gala''"
    unfolding scenario_slice by (simp add: enrichEvent_counts scenarioEvents_def)
  with run l3 zero show ?thesis by blast
qed

lemma consistent_result:
  assumes "\<forall>n d. request n = Inr d \<longrightarrow> int (length (ticketsOf d)) \<le> totalOf d"
    and "fst (getEventTickets request 3) = Some r"
  shows "int (length (tickets r)) \<le> total r"
  using assms
  by (auto simp: getEventTickets_3 Let_def failureResult_def successResult_def
      split: if_splits sum.splits)

text \<open>
  C9, as amended. When every successful ticket response of the service reports a total
  that is at least the number of ticket records it returns, every enriched event has
  paid plus free tickets at most \<open>ticketsSold\<close>. (The counts are taken from the records,
  \<open>ticketsSold\<close> from the reported total; nothing reconciles the two.)
\<close>

theorem paid_plus_free_bounded:
  assumes run: "getUpcomingEventsWithTickets fetched now api clock limit = Inr out"
    and consistent: "\<forall>i ident n d. api i ident n = Inr d \<longrightarrow> int (length (ticketsOf d)) \<le> totalOf d"
  shows "\<forall>x \<in> set out. int (paidTickets x + freeTickets x) \<le> ticketsSold x"
proof
  fix x assume "x \<in> set out"
  then obtain i where i: "i < length out" and x: "x = out ! i"
    by (auto simp: in_set_conv_nth)
  from run obtain allEvents where f: "fetched = Inr allEvents"
    by (cases fetched) (simp_all add: getUpcomingEventsWithTickets_def)
  let ?ups = "upcomingSlice now limit allEvents"
  from run f have loop: "enrichLoop api clock 0 ?ups = Inr out"
    by (simp add: getUpcomingEventsWithTickets_def)
  from enrichLoop_entries [of api clock 0 ?ups] loop i obtain r where
    r: "fst (getEventTickets (api i (eventId (?ups ! i))) 3) = Some r" and
    o: "out ! i = enrichEvent (?ups ! i) r (clock i)"
    by auto
  from consistent have "\<forall>n d. api i (eventId (?ups ! i)) n = Inr d
      \<longrightarrow> int (length (ticketsOf d)) \<le> totalOf d"
    by blast
  from consistent_result [OF this r] show "int (paidTickets x + freeTickets x) \<le> ticketsSold x"
    by (simp add: x o enrichEvent_counts)
qed

lemma scenario_twoTickets:
  "getUpcomingEventsWithTickets (Inr scenarioEvents) 0 twoTicketsApi scenarioClock 20 =
     Inr [enrichEvent (scenarioEvents ! 2) (successResult \<lparr>dataTickets = Some [\<lparr>free = True\<rparr>, \<lparr>free = False\<rparr>], dataTotal = Some 2\<rparr>) 500,
          enrichEvent (scenarioEvents ! 0) (successResult \<lparr>dataTickets = Some [\<lparr>free = True\<rparr>, \<lparr>free = False\<rparr>], dataTotal = Some 2\<rparr>) 1500,
          enrichEvent (scenarioEvents ! 1) (successResult \<lparr>dataTickets = Some [\<lparr>free = True\<rparr>, \<lparr>free = False\<rparr>], dataTotal = Some 2\<rparr>) 2500]"
  by (simp add: getUpcomingEventsWithTickets_def scenario_slice getEventTickets_3 twoTicketsApi_def
      rateLimited_def scenarioClock_def)

theorem paid_plus_free_bounded_witness:
  "\<exists>out. getUpcomingEventsWithTickets (Inr scenarioEvents) 0 twoTicketsApi scenarioClock 20 = Inr out
     \<and> length out = 3
     \<and> (\<forall>x \<in> set out. int (paidTickets x + freeTickets x) \<le> ticketsSold x)"
proof -
  have c: "\<forall>i ident n d. twoTicketsApi i ident n = Inr d \<longrightarrow> int (length (ticketsOf d)) \<le> totalOf d"
    by (auto simp: twoTicketsApi_def ticketsOf_def totalOf_def)
  from scenario_twoTickets obtain out where
    run: "getUpcomingEventsWithTickets (Inr scenarioEvents) 0 twoTicketsApi scenarioClock 20 = Inr out"
    and len: "length out = 3"
    by simp
  from paid_plus_free_bounded [OF run c] run len show ?thesis by blast
qed

text \<open>
  C9, as stated, fails: for a response with one ticket record and no total the enriched
  event has 1 paid ticket and 0 tickets sold.
\<close>

theorem paid_plus_free_counterexample:
  "\<exists>out. getUpcomingEventsWithTickets (Inr scenarioEvents) 0 noTotalApi scenarioClock 20 = Inr out
     \<and> \<not> (\<forall>x \<in> set out. int (paidTickets x + freeTickets x) \<le> ticketsSold x)"
proof -
  let ?r = "successResult \<lparr>dataTickets = Some [\<lparr>free = False\<rparr>], dataTotal = None\<rparr>"
  let ?out = "[enrichEvent (scenarioEvents ! 2) ?r 500, enrichEvent (scenarioEvents ! 0) ?r 1500,
       enrichEvent (scenarioEvents ! 1) ?r 2500]"
  have run: "getUpcomingEventsWithTickets (Inr scenarioEvents) 0 noTotalApi scenarioClock 20 = Inr ?out"
    by (simp add: getUpcomingEventsWithTickets_def scenario_slice getEventTickets_3 noTotalApi_def
      rateLimited_def scenarioClock_def)
  have "\<not> (\<forall>x \<in> set ?out. int (paidTickets x + freeTickets x) \<le> ticketsSold x)"
    by (simp add: enrichEvent_def Let_def successResult_def ticketsOf_def totalOf_def)
  with run show ?thesis by blast
qed

section \<open>Properties of the report\<close>

lemma salesStatusOf_cases:
  "salesStatusOf n d = ''high'' \<or> salesStatusOf n d = ''medium''
   \<or> salesStatusOf n d = ''low'' \<or> salesStatusOf n d = ''urgent''"
  by (simp add: salesStatusOf_def)

lemma four_way_count:
  assumes "\<forall>x \<in> set xs. f x = a \<or> f x = b \<or> f x = c \<or> f x = d"
    and "distinct [a, b, c, d]"
  shows "length (filter (\<lambda>x. f x = a) xs) + length (filter (\<lambda>x. f x = b) xs)
       + length (filter (\<lambda>x. f x = c) xs) + length (filter (\<lambda>x. f x = d) xs) = length xs"
  using assms by (induction xs) auto

text \<open>
  C10. Every event that the enrichment stage produces has one of the four statuses
  high, medium, low, urgent, and in the report built from these events the four
  counts of \<open>salesBreakdown\<close> add up to \<open>totalUpcomingEvents\<close>.
\<close>

theorem salesBreakdown_partitions:
  assumes run: "getUpcomingEventsWithTickets fetched now api clock limit = Inr events"
  shows "(\<forall>e \<in> set events. salesStatus e \<in> {''high'', ''medium'', ''low'', ''urgent''})
    \<and> (\<exists>rep. generateTicketReport (Inr events) = Inr rep
          \<and> high (salesBreakdown rep) + medium (salesBreakdown rep)
            + low (salesBreakdown rep) + urgent (salesBreakdown rep) = totalUpcomingEvents rep)"
proof -
  from run obtain allEvents where f: "fetched = Inr allEvents"
    by (cases fetched) (simp_all add: getUpcomingEventsWithTickets_def)
  let ?ups = "upcomingSlice now limit allEvents"
  from run f have loop: "enrichLoop api clock 0 ?ups = Inr events"
    by (simp add: getUpcomingEventsWithTickets_def)
  have st: "\<forall>e \<in> set events. salesStatus e = ''high'' \<or> salesStatus e = ''medium''
      \<or> salesStatus e = ''low'' \<or> salesStatus e = ''urgent''"
  proof
    fix e assume "e \<in> set events"
    then obtain i where i: "i < length events" and e: "e = events ! i"
      by (auto simp: in_set_conv_nth)
    from enrichLoop_entries [of api clock 0 ?ups] loop i obtain r where
      "events ! i = enrichEvent (?ups ! i) r (clock i)"
      by auto
    with e show "salesStatus e = ''high'' \<or> salesStatus e = ''medium''
      \<or> salesStatus e = ''low'' \<or> salesStatus e = ''urgent''"
      using salesStatusOf_cases by (simp add: enrichEvent_counts)
  qed
  have "distinct [''high'', ''medium'', ''low'', ''urgent'']" by simp
  from four_way_count [OF st this]
  have "high (salesBreakdown (buildSummary events)) + medium (salesBreakdown (buildSummary events))
      + low (salesBreakdown (buildSummary events)) + urgent (salesBreakdown (buildSummary events))
      = totalUpcomingEvents (buildSummary events)"
    by (simp add: buildSummary_def Let_def)
  then show ?thesis using st by (simp add: generateTicketReport_def)
qed

theorem salesBreakdown_partitions_witness:
  "\<exists>events rep.
     getUpcomingEventsWithTickets (Inr scenarioEvents) 0 twoTicketsApi scenarioClock 20 = Inr events
     \<and> (\<forall>e \<in> set events. salesStatus e \<in> {''high'', ''medium'', ''low'', ''urgent''})
     \<and> generateTicketReport (Inr events) = Inr rep
     \<and> high (salesBreakdown rep) + medium (salesBreakdown rep)
        + low (salesBreakdown rep) + urgent (salesBreakdown rep) = totalUpcomingEvents rep
     \<and> totalUpcomingEvents rep = 3"
proof -
  from scenario_twoTickets obtain events where
    run: "getUpcomingEventsWithTickets (Inr scenarioEvents) 0 twoTicketsApi scenarioClock 20 = Inr events"
    and len: "length events = 3"
    by simp
  from salesBreakdown_partitions [OF run] obtain rep where
    st: "\<forall>e \<in> set events. salesStatus e \<in> {''high'', ''medium'', ''low'', ''urgent''}" and
    rep: "generateTicketReport (Inr events) = Inr rep" and
    cnt: "high (salesBreakdown rep) + medium (salesBreakdown rep)
        + low (salesBreakdown rep) + urgent (salesBreakdown rep) = totalUpcomingEvents rep"
    by blast
  from rep len have "totalUpcomingEvents rep = 3"
    by (auto simp: generateTicketReport_def buildSummary_def Let_def)
  with run st rep cnt show ?thesis by blast
qed

lemma title_facts:
  "isRSVPEvent ''Open Mic''" "\<not> isRSVPEvent ''Jazz Night''" "\<not> isRSVPEvent ''Fundraiser Gala''"
  "\<not> isRSVPEvent ''Community Picnic''"
  "categorizeEvent ''Open Mic'' = ''Open Mic''" "categorizeEvent ''Jazz Night'' = ''Concert''"
  "categorizeEvent ''Fundraiser Gala'' = ''Fundraiser''"
  "categorizeEvent ''Community Picnic'' = ''Concert''"
  by code_simp+

lemma scenario_ids:
  "eventId (scenarioEvents ! 0) = ''open-mic''" "eventId (scenarioEvents ! Suc 0) = ''jazz-night''"
  "eventId (scenarioEvents ! 2) = ''gala''"
  by (simp_all add: scenarioEvents_def)

lemma scenario_run:
  "getUpcomingEventsWithTickets (Inr scenarioEvents) 0 (scenarioApi jazz gala) scenarioClock 20 =
     Inr [enrichEvent (scenarioEvents ! 2) (successResult \<lparr>dataTickets = Some gala, dataTotal = Some 30\<rparr>) 500,
          enrichEvent (scenarioEvents ! 0) (successResult \<lparr>dataTickets = Some [], dataTotal = Some 0\<rparr>) 1500,
          enrichEvent (scenarioEvents ! 1) (successResult \<lparr>dataTickets = Some jazz, dataTotal = Some 12\<rparr>) 2500]"
  by (simp add: getUpcomingEventsWithTickets_def scenario_slice scenario_ids getEventTickets_3
      scenarioApi_def rateLimited_def scenarioClock_def)

lemma scenario_events:
  "enrichEvent (scenarioEvents ! 2) (successResult \<lparr>dataTickets = Some gala, dataTotal = Some 30\<rparr>) 500
    = \<lparr>eventId = ''gala'', title = ''Fundraiser Gala'', startDate = JsString (Some 172800000), locationName = None,
       ticketsSold = 30, paidTickets = length (filter (\<lambda>t. \<not> free t) gala),
       freeTickets = length (filter free gala), daysFromNow = Some 2, salesStatus = ''high'',
       eventType = ''Fundraiser'', venue = ''The Listening Booth'',
       isPaid = (length (filter (\<lambda>t. \<not> free t) gala) > 0),
       isFree = (int (length (filter free gala)) = 30), isRSVPOnly = False\<rparr>"
  "enrichEvent (scenarioEvents ! 0) (successResult \<lparr>dataTickets = Some [], dataTotal = Some 0\<rparr>) 1500
    = \<lparr>eventId = ''open-mic'', title = ''Open Mic'', startDate = JsString (Some 259200000), locationName = None,
       ticketsSold = 0, paidTickets = 0, freeTickets = 0, daysFromNow = Some 3, salesStatus = ''urgent'',
       eventType = ''Open Mic'', venue = ''The Listening Booth'',
       isPaid = False, isFree = False, isRSVPOnly = True\<rparr>"
  "enrichEvent (scenarioEvents ! 1) (successResult \<lparr>dataTickets = Some jazz, dataTotal = Some 12\<rparr>) 2500
    = \<lparr>eventId = ''jazz-night'', title = ''Jazz Night'', startDate = JsString (Some 864000000), locationName = None,
       ticketsSold = 12, paidTickets = length (filter (\<lambda>t. \<not> free t) jazz),
       freeTickets = length (filter free jazz), daysFromNow = Some 10, salesStatus = ''medium'',
       eventType = ''Concert'', venue = ''The Listening Booth'',
       isPaid = (length (filter (\<lambda>t. \<not> free t) jazz) > 0),
       isFree = (int (length (filter free jazz)) = 12), isRSVPOnly = False\<rparr>"
  by (simp_all add: scenarioEvents_def enrichEvent_def Let_def successResult_def ticketsOf_def
      totalOf_def daysUntil_def salesStatusOf_def title_facts venueOf_def eventDate_def)

text \<open>
  C2, as amended. In the end-to-end scenario, whatever ticket records come with the 12
  and the 30 tickets, \<open>urgentEvents\<close> holds exactly "Open Mic" (no ticket sold, 3 days
  out; nothing exempts an RSVP-only event from the urgent status),
  \<open>topSellingEvents\<close> is Fundraiser Gala with 30 and then Jazz Night with 12, and the
  average is 21 over the 2 ticketed events.
\<close>

theorem scenario_report:
  "\<exists>rep. scenarioReport jazz gala = Inr rep
     \<and> map title (urgentEvents rep) = [''Open Mic'']
     \<and> map (\<lambda>(t, n, ty). (t, n)) (topSellingEvents rep)
         = [(''Fundraiser Gala'', 30), (''Jazz Night'', 12)]
     \<and> ticketedEventsCount rep = 2
     \<and> averageTicketsPerEvent rep = 21"
  unfolding scenarioReport_def scenario_run scenario_events
  by (simp add: generateTicketReport_def buildSummary_def Let_def isTicketed_def mathRound_def)

text \<open>
  C2, as stated, fails: \<open>urgentEvents\<close> of the scenario is not empty.
\<close>

theorem scenario_urgent_counterexample:
  "\<exists>rep. scenarioReport (replicate 12 \<lparr>free = False\<rparr>) (replicate 30 \<lparr>free = False\<rparr>) = Inr rep
     \<and> urgentEvents rep \<noteq> []"
  unfolding scenarioReport_def scenario_run scenario_events
  by (simp add: generateTicketReport_def buildSummary_def Let_def)

theorem scenario_report_witness:
  "\<exists>rep. scenarioReport (replicate 12 \<lparr>free = False\<rparr>) (replicate 30 \<lparr>free = False\<rparr>) = Inr rep
     \<and> map title (urgentEvents rep) = [''Open Mic'']
     \<and> averageTicketsPerEvent rep = 21"
proof -
  from scenario_report [of "replicate 12 \<lparr>free = False\<rparr>" "replicate 30 \<lparr>free = False\<rparr>"]
  obtain rep where
    "scenarioReport (replicate 12 \<lparr>free = False\<rparr>) (replicate 30 \<lparr>free = False\<rparr>) = Inr rep"
    "map title (urgentEvents rep) = [''Open Mic'']" "averageTicketsPerEvent rep = 21"
    by auto
  then show ?thesis by simp
qed

subsection \<open>The average\<close>

lemma freeEvent_run:
  "getUpcomingEventsWithTickets (Inr freeEventInput) 0 freeEventApi scenarioClock 20 =
     Inr [\<lparr>eventId = ''concert'', title = ''Jazz Night'', startDate = JsString (Some 864000000),
           locationName = None, ticketsSold = 10, paidTickets = 10, freeTickets = 0,
           daysFromNow = Some 10, salesStatus = ''medium'', eventType = ''Concert'',
           venue = ''The Listening Booth'', isPaid = True, isFree = False, isRSVPOnly = False\<rparr>,
          \<lparr>eventId = ''picnic'', title = ''Community Picnic'', startDate = JsString (Some 1036800000),
           locationName = None, ticketsSold = 4, paidTickets = 0, freeTickets = 4,
           daysFromNow = Some 12, salesStatus = ''low'', eventType = ''Concert'',
           venue = ''The Listening Booth'', isPaid = False, isFree = True, isRSVPOnly = False\<rparr>]"
  by (simp add: getUpcomingEventsWithTickets_def upcomingSlice_def slice0_def freeEventInput_def
      dateAfter_def timeValue_def getEventTickets_3 freeEventApi_def rateLimited_def
      scenarioClock_def enrichEvent_def Let_def successResult_def ticketsOf_def
      totalOf_def daysUntil_def salesStatusOf_def title_facts venueOf_def eventDate_def)

text \<open>
  The test on \<open>isRSVPOnly\<close> in the filter of lines 803-805 never decides anything: an
  event of the enrichment stage is RSVP-only only with no ticket sold. So every event
  with \<open>ticketsSold > 0\<close> is counted as ticketed, and with it every event flagged free.
\<close>

lemma enrichEvent_rsvp: "isRSVPOnly (enrichEvent e r t) \<Longrightarrow> ticketsSold (enrichEvent e r t) = 0"
  by (simp add: enrichEvent_def Let_def)

lemma isTicketed_enriched:
  "isTicketed (enrichEvent e r t)
     = (isPaid (enrichEvent e r t) \<or> ticketsSold (enrichEvent e r t) > 0)"
  by (auto simp: isTicketed_def enrichEvent_def Let_def)

lemma free_is_ticketed: "isFree (enrichEvent e r t) \<Longrightarrow> isTicketed (enrichEvent e r t)"
  by (auto simp: isTicketed_def enrichEvent_def Let_def)

text \<open>
  C1. The report promises an average over the ticketed events that leaves out the
  free and RSVP-only ones, whose number it gives as \<open>freeEventsCount\<close>. The run of a
  concert with 10 paid tickets and a picnic with 4 free tickets shows that the code
  does not do so: the picnic is flagged \<open>isFree\<close> and counted in \<open>freeEventsCount\<close>, only
  one event is neither free nor RSVP-only, and yet two events are counted as
  ticketed, so the average is 14 / 2 = 7 and not 14 / 1.
\<close>

theorem free_event_in_average:
  "\<exists>events rep.
     getUpcomingEventsWithTickets (Inr freeEventInput) 0 freeEventApi scenarioClock 20 = Inr events
     \<and> map title events = [''Jazz Night'', ''Community Picnic'']
     \<and> map isFree events = [False, True]
     \<and> generateTicketReport (Inr events) = Inr rep
     \<and> totalTicketsSold rep = 14
     \<and> freeEventsCount rep = 1
     \<and> length (filter (\<lambda>e. \<not> (isFree e \<or> isRSVPOnly e)) events) = 1
     \<and> ticketedEventsCount rep = 2
     \<and> averageTicketsPerEvent rep = 7
     \<and> averageTicketsPerEvent rep \<noteq>
         real_of_int (totalTicketsSold rep)
           / real (length (filter (\<lambda>e. \<not> (isFree e \<or> isRSVPOnly e)) events))"
  unfolding freeEvent_run
  by (simp add: generateTicketReport_def buildSummary_def Let_def isTicketed_def mathRound_def)

end
